theory Spec2Isabelle
  imports Main
begin

section \<open>Python values decoded from JSON\<close>

text \<open>
  The application (src/app.py) keeps what \<^verbatim>\<open>json.loads\<close> returns without
  checking its shape, so quiz data is modelled as the untyped Python value it is:
  \<open>JNull\<close> is Python's \<^verbatim>\<open>None\<close>, \<open>JArr\<close> a list, \<open>JObj\<close> a dict (an
  association list with distinct keys, in insertion order). A number written without
  fraction and exponent is a Python int. A number with a fraction or an exponent is a
  Python float; its value is taken to be the decimal number as written, mantissa
  times a power of ten, and the rounding of that number to a binary double is not
  modelled. Python text is modelled by \<open>string\<close>, that is by characters with code
  points below 256.
\<close>

datatype pyfloat = Dec int int | NaN | PosInf | NegInf

datatype json =
    JNull
  | JBool bool
  | JInt int
  | JFloat pyfloat
  | JStr string
  | JArr "json list"
  | JObj "(string \<times> json) list"

datatype py_error = TypeError | KeyError

text \<open>Truth value of a Python object, as \<^verbatim>\<open>if x:\<close> and \<^verbatim>\<open>not x\<close> test it.\<close>

fun float_is_zero :: "pyfloat \<Rightarrow> bool" where
  "float_is_zero (Dec m e) = (m = 0)"
| "float_is_zero _ = False"

fun truthy :: "json \<Rightarrow> bool" where
  "truthy JNull = False"
| "truthy (JBool b) = b"
| "truthy (JInt n) = (n \<noteq> 0)"
| "truthy (JFloat f) = (\<not> float_is_zero f)"
| "truthy (JStr s) = (s \<noteq> [])"
| "truthy (JArr xs) = (xs \<noteq> [])"
| "truthy (JObj kvs) = (kvs \<noteq> [])"

text \<open>
  Python's \<^verbatim>\<open>==\<close> on decoded values. Text equals text exactly when the characters
  agree, and equals nothing else. Numbers compare by value, \<^verbatim>\<open>True\<close> and
  \<^verbatim>\<open>False\<close> being the integers 1 and 0; NaN equals nothing. Lists compare
  elementwise and dicts key by key, whatever the order.
\<close>

definition dec_eq :: "int \<Rightarrow> int \<Rightarrow> int \<Rightarrow> int \<Rightarrow> bool" where
  "dec_eq m1 e1 m2 e2 =
     (m1 * 10 ^ nat (e1 - min e1 e2) = m2 * 10 ^ nat (e2 - min e1 e2))"

fun float_eq :: "pyfloat \<Rightarrow> pyfloat \<Rightarrow> bool" where
  "float_eq (Dec m1 e1) (Dec m2 e2) = dec_eq m1 e1 m2 e2"
| "float_eq PosInf PosInf = True"
| "float_eq NegInf NegInf = True"
| "float_eq _ _ = False"

fun number_of_json :: "json \<Rightarrow> pyfloat option" where
  "number_of_json (JBool b) = Some (Dec (if b then 1 else 0) 0)"
| "number_of_json (JInt n) = Some (Dec n 0)"
| "number_of_json (JFloat f) = Some f"
| "number_of_json _ = None"

definition number_eq :: "pyfloat \<Rightarrow> json \<Rightarrow> bool" where
  "number_eq f b = (case number_of_json b of None \<Rightarrow> False | Some g \<Rightarrow> float_eq f g)"

fun py_eq :: "json \<Rightarrow> json \<Rightarrow> bool"
  and py_eq_list :: "json list \<Rightarrow> json list \<Rightarrow> bool"
  and py_eq_items :: "(string \<times> json) list \<Rightarrow> (string \<times> json) list \<Rightarrow> bool"
where
  "py_eq JNull b = (b = JNull)"
| "py_eq (JBool x) b = number_eq (Dec (if x then 1 else 0) 0) b"
| "py_eq (JInt n) b = number_eq (Dec n 0) b"
| "py_eq (JFloat f) b = number_eq f b"
| "py_eq (JStr s) b = (b = JStr s)"
| "py_eq (JArr xs) b = (case b of JArr ys \<Rightarrow> py_eq_list xs ys | _ \<Rightarrow> False)"
| "py_eq (JObj kvs) b =
     (case b of JObj kvs' \<Rightarrow> length kvs = length kvs' \<and> py_eq_items kvs kvs'
      | _ \<Rightarrow> False)"
| "py_eq_list [] ys = (ys = [])"
| "py_eq_list (x # xs) ys =
     (case ys of [] \<Rightarrow> False | y # ys' \<Rightarrow> py_eq x y \<and> py_eq_list xs ys')"
| "py_eq_items [] kvs' = True"
| "py_eq_items (kv # kvs) kvs' =
     (case map_of kvs' (fst kv) of
        None \<Rightarrow> False
      | Some y \<Rightarrow> py_eq (snd kv) y \<and> py_eq_items kvs kvs')"

text \<open>
  \<^verbatim>\<open>key in q\<close> for a text key: membership among the keys of a dict, among the
  elements of a list, substring search in a string; on \<^verbatim>\<open>None\<close>, a bool or a
  number Python raises TypeError (the argument is not iterable).
\<close>

fun is_substring :: "string \<Rightarrow> string \<Rightarrow> bool" where
  "is_substring k [] = (k = [])"
| "is_substring k (c # cs) = (take (length k) (c # cs) = k \<or> is_substring k cs)"

fun py_in :: "string \<Rightarrow> json \<Rightarrow> py_error + bool" where
  "py_in k (JObj kvs) = Inr (k \<in> set (map fst kvs))"
| "py_in k (JArr xs) = Inr (JStr k \<in> set xs)"
| "py_in k (JStr s) = Inr (is_substring k s)"
| "py_in k _ = Inl TypeError"

text \<open>
  \<^verbatim>\<open>q[key]\<close> for a text key: a dict answers or raises KeyError; every other value
  raises TypeError (a list and a string take integer indices, the rest cannot be
  subscripted).
\<close>

fun py_getitem :: "json \<Rightarrow> string \<Rightarrow> py_error + json" where
  "py_getitem (JObj kvs) k =
     (case map_of kvs k of None \<Rightarrow> Inl KeyError | Some v \<Rightarrow> Inr v)"
| "py_getitem _ k = Inl TypeError"

text \<open>\<^verbatim>\<open>isinstance(v, list)\<close>.\<close>

fun is_list :: "json \<Rightarrow> bool" where
  "is_list (JArr xs) = True"
| "is_list _ = False"

text \<open>
  The values a \<^verbatim>\<open>for\<close> loop draws from an object: the elements of a list, the
  keys of a dict, the characters of a string; anything else is not iterable.
\<close>

fun py_iter :: "json \<Rightarrow> py_error + json list" where
  "py_iter (JArr xs) = Inr xs"
| "py_iter (JObj kvs) = Inr (map (\<lambda>kv. JStr (fst kv)) kvs)"
| "py_iter (JStr s) = Inr (map (\<lambda>c. JStr [c]) s)"
| "py_iter _ = Inl TypeError"


section \<open>The JSON decoder behind \<^verbatim>\<open>json.loads\<close>\<close>

text \<open>
  \<^verbatim>\<open>json.loads\<close> belongs to Python's standard library. It is modelled by a lexer and
  a stack parser for the grammar that decoder accepts: the four whitespace characters,
  the literals null, true, false, NaN, Infinity and -Infinity, numbers
  \<^verbatim>\<open>-?(0|[1-9][0-9]*)(\.[0-9]+)?([eE][-+]?[0-9]+)?\<close>, strings in double quotes with
  the escapes of JSON and no raw control character, arrays and objects without a
  trailing comma, a repeated key keeping its first position and its last value, and
  nothing but whitespace after the value. The interpreter's limits (recursion depth,
  digits of an integer) are not modelled.
\<close>

datatype token =
    LBrack | RBrack | LBrace | RBrace | Comma | Colon
  | Scalar json

datatype mode =
    MIdle
  | MWord string
  | MStr string
  | MEsc string
  | MUni string "nat list"

definition dquote :: char where "dquote = CHR 0x22"
definition backslash :: char where "backslash = CHR 0x5C"

definition is_space :: "char \<Rightarrow> bool" where
  "is_space c = (c = CHR '' '' \<or> c = CHR 0x09 \<or> c = CHR 0x0A \<or> c = CHR 0x0D)"

definition is_digit :: "char \<Rightarrow> bool" where
  "is_digit c = (c \<in> set ''0123456789'')"

definition is_word_char :: "char \<Rightarrow> bool" where
  "is_word_char c =
     (c \<in> set ''0123456789+-.abcdefghijklmnopqrstuvwxyzABCDEFGHIJKLMNOPQRSTUVWXYZ'')"

definition digit_val :: "char \<Rightarrow> int" where
  "digit_val c = int (of_char c) - 48"

definition hex_val :: "char \<Rightarrow> nat option" where
  "hex_val c =
     map_of (zip ''0123456789abcdef'' [0..<16] @ zip ''ABCDEF'' [10..<16]) c"

definition int_of_digits :: "string \<Rightarrow> int" where
  "int_of_digits ds = foldl (\<lambda>n c. 10 * n + digit_val c) 0 ds"

text \<open>
  The number grammar, on a whole word: an optional minus, the integer part, an optional
  fraction, an optional exponent. Without fraction and exponent the word is an int;
  otherwise it is the float whose mantissa is made of the digits of both parts and
  whose exponent is the one written less the number of fraction digits.
\<close>

definition number_of_word :: "string \<Rightarrow> json option" where
  "number_of_word w =
     (let neg = (take 1 w = ''-'');
          r = (if neg then drop 1 w else w);
          ip = takeWhile is_digit r;
          r1 = dropWhile is_digit r;
          has_frac = (take 1 r1 = ''.'');
          fp = (if has_frac then takeWhile is_digit (drop 1 r1) else []);
          r2 = (if has_frac then dropWhile is_digit (drop 1 r1) else r1);
          has_exp = (take 1 r2 = ''e'' \<or> take 1 r2 = ''E'');
          r3 = (if has_exp then drop 1 r2 else r2);
          exp_neg = (has_exp \<and> take 1 r3 = ''-'');
          r4 = (if has_exp \<and> (take 1 r3 = ''+'' \<or> take 1 r3 = ''-'') then drop 1 r3 else r3);
          ep = (if has_exp then takeWhile is_digit r4 else []);
          r5 = (if has_exp then dropWhile is_digit r4 else r4);
          sign = (if neg then - 1 else 1);
          ex = (if exp_neg then - int_of_digits ep else int_of_digits ep)
      in if ip = [] \<or> (1 < length ip \<and> hd ip = CHR ''0'') then None
         else if has_frac \<and> fp = [] then None
         else if has_exp \<and> ep = [] then None
         else if r5 \<noteq> [] then None
         else if has_frac \<or> has_exp
           then Some (JFloat (Dec (sign * int_of_digits (ip @ fp)) (ex - int (length fp))))
         else Some (JInt (sign * int_of_digits ip)))"

definition scalar_of_word :: "string \<Rightarrow> json option" where
  "scalar_of_word w =
     (if w = ''null'' then Some JNull
      else if w = ''true'' then Some (JBool True)
      else if w = ''false'' then Some (JBool False)
      else if w = ''NaN'' then Some (JFloat NaN)
      else if w = ''Infinity'' then Some (JFloat PosInf)
      else if w = ''-Infinity'' then Some (JFloat NegInf)
      else number_of_word w)"

text \<open>
  What a character that cannot continue a word does between tokens: whitespace is
  dropped, a bracket, brace, comma or colon is a token, a double quote opens a string.
\<close>

definition punct :: "char \<Rightarrow> (token list \<times> mode) option" where
  "punct c =
     (if is_space c then Some ([], MIdle)
      else if c = CHR ''['' then Some ([LBrack], MIdle)
      else if c = CHR '']'' then Some ([RBrack], MIdle)
      else if c = CHR ''{'' then Some ([LBrace], MIdle)
      else if c = CHR ''}'' then Some ([RBrace], MIdle)
      else if c = CHR '','' then Some ([Comma], MIdle)
      else if c = CHR '':'' then Some ([Colon], MIdle)
      else if c = dquote then Some ([], MStr [])
      else None)"

definition unescape :: "char \<Rightarrow> char option" where
  "unescape c =
     (if c = dquote \<or> c = backslash \<or> c = CHR ''/'' then Some c
      else if c = CHR ''b'' then Some (CHR 0x08)
      else if c = CHR ''f'' then Some (CHR 0x0C)
      else if c = CHR ''n'' then Some (CHR 0x0A)
      else if c = CHR ''r'' then Some (CHR 0x0D)
      else if c = CHR ''t'' then Some (CHR 0x09)
      else None)"

definition emit :: "token list \<Rightarrow> token list option \<Rightarrow> token list option" where
  "emit ts r = map_option (\<lambda>rest. ts @ rest) r"

text \<open>
  The lexer reads one character at a time; the mode says what it is inside of. Words
  and strings are collected in reverse. A \<^verbatim>\<open>\uXXXX\<close> escape yields the character
  of that code point, cut to the 8 bits of \<open>char\<close>.
\<close>

fun lex_go :: "mode \<Rightarrow> string \<Rightarrow> token list option" where
  "lex_go MIdle [] = Some []"
| "lex_go (MWord w) [] = map_option (\<lambda>v. [Scalar v]) (scalar_of_word (rev w))"
| "lex_go (MStr acc) [] = None"
| "lex_go (MEsc acc) [] = None"
| "lex_go (MUni acc hs) [] = None"
| "lex_go MIdle (c # cs) =
     (if is_word_char c then lex_go (MWord [c]) cs
      else (case punct c of
              None \<Rightarrow> None
            | Some (ts, m) \<Rightarrow> emit ts (lex_go m cs)))"
| "lex_go (MWord w) (c # cs) =
     (if is_word_char c then lex_go (MWord (c # w)) cs
      else (case scalar_of_word (rev w) of
              None \<Rightarrow> None
            | Some v \<Rightarrow>
                (case punct c of
                   None \<Rightarrow> None
                 | Some (ts, m) \<Rightarrow> emit (Scalar v # ts) (lex_go m cs))))"
| "lex_go (MStr acc) (c # cs) =
     (if c = dquote then emit [Scalar (JStr (rev acc))] (lex_go MIdle cs)
      else if c = backslash then lex_go (MEsc acc) cs
      else if (of_char c :: nat) < 32 then None
      else lex_go (MStr (c # acc)) cs)"
| "lex_go (MEsc acc) (c # cs) =
     (if c = CHR ''u'' then lex_go (MUni acc []) cs
      else (case unescape c of
              None \<Rightarrow> None
            | Some d \<Rightarrow> lex_go (MStr (d # acc)) cs))"
| "lex_go (MUni acc hs) (c # cs) =
     (case hex_val c of
        None \<Rightarrow> None
      | Some h \<Rightarrow>
          (if length hs = 3
           then lex_go (MStr (char_of (foldl (\<lambda>n d. 16 * n + d) 0 (hs @ [h])) # acc)) cs
           else lex_go (MUni acc (hs @ [h])) cs))"

definition lex :: "string \<Rightarrow> token list option" where
  "lex s = lex_go MIdle s"

text \<open>
  The parser keeps a stack of the containers that are open, the innermost first, each
  with what may come next in it.
\<close>

datatype astate = AStart | AAfterVal | AAfterComma

datatype ostate = OStart | OAfterKey string | OAfterColon string | OAfterVal | OAfterComma

datatype frame =
    FArr "json list" astate
  | FObj "(string \<times> json) list" ostate

datatype pstate = PStack "frame list" | PDone json

text \<open>A dict assignment: a new key goes last, a known key keeps its place.\<close>

fun obj_update :: "string \<Rightarrow> json \<Rightarrow> (string \<times> json) list \<Rightarrow> (string \<times> json) list" where
  "obj_update k v [] = [(k, v)]"
| "obj_update k v (p # ps) = (if fst p = k then (k, v) # ps else p # obj_update k v ps)"

fun push_value :: "json \<Rightarrow> frame list \<Rightarrow> pstate option" where
  "push_value v [] = Some (PDone v)"
| "push_value v (FArr xs AStart # fs) = Some (PStack (FArr (xs @ [v]) AAfterVal # fs))"
| "push_value v (FArr xs AAfterComma # fs) = Some (PStack (FArr (xs @ [v]) AAfterVal # fs))"
| "push_value v (FObj kvs (OAfterColon k) # fs) =
     Some (PStack (FObj (obj_update k v kvs) OAfterVal # fs))"
| "push_value v _ = None"

fun expects_value :: "frame list \<Rightarrow> bool" where
  "expects_value [] = True"
| "expects_value (FArr xs AStart # fs) = True"
| "expects_value (FArr xs AAfterComma # fs) = True"
| "expects_value (FObj kvs (OAfterColon k) # fs) = True"
| "expects_value _ = False"

fun expects_key :: "frame list \<Rightarrow> bool" where
  "expects_key (FObj kvs OStart # fs) = True"
| "expects_key (FObj kvs OAfterComma # fs) = True"
| "expects_key _ = False"

fun parse_step :: "token \<Rightarrow> frame list \<Rightarrow> pstate option" where
  "parse_step LBrack fs =
     (if expects_value fs then Some (PStack (FArr [] AStart # fs)) else None)"
| "parse_step LBrace fs =
     (if expects_value fs then Some (PStack (FObj [] OStart # fs)) else None)"
| "parse_step RBrack fs =
     (case fs of
        FArr xs AStart # fs' \<Rightarrow> push_value (JArr xs) fs'
      | FArr xs AAfterVal # fs' \<Rightarrow> push_value (JArr xs) fs'
      | _ \<Rightarrow> None)"
| "parse_step RBrace fs =
     (case fs of
        FObj kvs OStart # fs' \<Rightarrow> push_value (JObj kvs) fs'
      | FObj kvs OAfterVal # fs' \<Rightarrow> push_value (JObj kvs) fs'
      | _ \<Rightarrow> None)"
| "parse_step Comma fs =
     (case fs of
        FArr xs AAfterVal # fs' \<Rightarrow> Some (PStack (FArr xs AAfterComma # fs'))
      | FObj kvs OAfterVal # fs' \<Rightarrow> Some (PStack (FObj kvs OAfterComma # fs'))
      | _ \<Rightarrow> None)"
| "parse_step Colon fs =
     (case fs of
        FObj kvs (OAfterKey k) # fs' \<Rightarrow> Some (PStack (FObj kvs (OAfterColon k) # fs'))
      | _ \<Rightarrow> None)"
| "parse_step (Scalar v) fs =
     (if expects_key fs then
        (case (v, fs) of
           (JStr k, FObj kvs st # fs') \<Rightarrow> Some (PStack (FObj kvs (OAfterKey k) # fs'))
         | _ \<Rightarrow> None)
      else push_value v fs)"

fun parse_tokens :: "token list \<Rightarrow> pstate \<Rightarrow> json option" where
  "parse_tokens [] (PDone v) = Some v"
| "parse_tokens [] (PStack fs) = None"
| "parse_tokens (t # ts) (PDone v) = None"
| "parse_tokens (t # ts) (PStack fs) =
     (case parse_step t fs of None \<Rightarrow> None | Some st \<Rightarrow> parse_tokens ts st)"

text \<open>
  What \<^verbatim>\<open>json.loads\<close> raises: JSONDecodeError on text outside the grammar. Any
  other exception (the interpreter giving up on a text it cannot handle) is
  \<open>DecoderFault\<close>; the decoder modelled here never raises it.
\<close>

datatype json_error = JSONDecodeError | DecoderFault string

definition json_loads :: "string \<Rightarrow> json_error + json" where
  "json_loads s =
     (case lex s of
        None \<Rightarrow> Inl JSONDecodeError
      | Some ts \<Rightarrow>
          (case parse_tokens ts (PStack []) of
             None \<Rightarrow> Inl JSONDecodeError
           | Some v \<Rightarrow> Inr v))"


section \<open>Session state, gateway and screen\<close>

text \<open>
  A turn of the conversation is the dict \<^verbatim>\<open>{"role": ..., "parts": [...]}\<close> that
  the application appends to \<^verbatim>\<open>st.session_state.chat_history\<close>.
\<close>

record turn =
  role :: string
  parts :: "string list"

definition user_turn :: "string \<Rightarrow> turn" where
  "user_turn text = \<lparr>role = ''user'', parts = [text]\<rparr>"

definition model_turn :: "string \<Rightarrow> turn" where
  "model_turn text = \<lparr>role = ''model'', parts = [text]\<rparr>"

text \<open>The four keys of \<^verbatim>\<open>st.session_state\<close> (lines 127 to 140).\<close>

record session =
  chat_history :: "turn list"
  quiz_questions :: json
  user_answers :: "nat \<rightharpoonup> json"
  quiz_score :: "int option"

definition init_session :: session where
  "init_session =
     \<lparr>chat_history = [], quiz_questions = JArr [], user_answers = Map.empty,
      quiz_score = None\<rparr>"

text \<open>
  What the application asks of the external service: either a chat session started on
  a history, to which one message is sent (lines 83 and 84), or one content generation,
  with or without the JSON generation config (lines 87 and 88).
\<close>

datatype request =
    ChatRequest "turn list" string
  | ContentRequest string bool

text \<open>
  The service is a parameter of the model: it answers a request with the text of its
  reply (\<open>Inr\<close>) or with the message of the exception the call raised (\<open>Inl\<close>).
\<close>

type_synonym service = "request \<Rightarrow> string + string"

text \<open>
  The turns a request delivers to the service, in order. A chat session sends its
  history followed by the message as a user turn; a content generation sends the
  prompt alone.
\<close>

fun delivered :: "request \<Rightarrow> turn list" where
  "delivered (ChatRequest history msg) = history @ [user_turn msg]"
| "delivered (ContentRequest prompt force_json) = [user_turn prompt]"

text \<open>
  What a handler leaves on the screen or on the wire, in order: the messages of
  \<^verbatim>\<open>st.error\<close> and \<^verbatim>\<open>st.warning\<close> by the line that shows them, the questions
  the form renders, and each call of the service together with the session state at
  the moment of the call.
\<close>

datatype event =
    ApiError string
  | ParseError
  | UnexpectedParseError string
  | InvalidQuizData
  | TopicWarning
  | SkippedQuestion nat json
  | QuestionShown nat json
  | Called request session

fun is_error :: "event \<Rightarrow> bool" where
  "is_error (ApiError e) = True"
| "is_error ParseError = True"
| "is_error (UnexpectedParseError e) = True"
| "is_error InvalidQuizData = True"
| "is_error (SkippedQuestion i q) = True"
| "is_error _ = False"


section \<open>Helper functions of the application\<close>

text \<open>
  \<^verbatim>\<open>get_gemini_response\<close> (lines 68 to 101). The session is passed only to be
  recorded with the call.
\<close>

definition get_gemini_response ::
    "service \<Rightarrow> session \<Rightarrow> string \<Rightarrow> turn list option \<Rightarrow> bool \<Rightarrow> string option \<times> event list" where
  "get_gemini_response svc st prompt history force_json =
     (let req = (case history of
                   Some h \<Rightarrow> ChatRequest h prompt
                 | None \<Rightarrow> ContentRequest prompt force_json)
      in case svc req of
           Inr text \<Rightarrow> (Some text, [Called req st])
         | Inl e \<Rightarrow> (None, [Called req st, ApiError e]))"

text \<open>\<^verbatim>\<open>str.find\<close> and \<^verbatim>\<open>str.rfind\<close> for one character: an index, or -1.\<close>

fun find_char :: "char \<Rightarrow> string \<Rightarrow> int" where
  "find_char c [] = -1"
| "find_char c (x # xs) =
     (if x = c then 0
      else (let r = find_char c xs in if r = -1 then -1 else r + 1))"

fun rfind_char :: "char \<Rightarrow> string \<Rightarrow> int" where
  "rfind_char c [] = -1"
| "rfind_char c (x # xs) =
     (let r = rfind_char c xs
      in if r \<noteq> -1 then r + 1 else if x = c then 0 else -1)"

text \<open>
  The slice \<^verbatim>\<open>s[a:b]\<close>: a negative bound counts from the end, both bounds are cut
  to the length, and a stop at or before the start gives the empty string.
\<close>

definition slice_bound :: "nat \<Rightarrow> int \<Rightarrow> nat" where
  "slice_bound n i = (if i < 0 then nat (int n + i) else min n (nat i))"

definition py_slice :: "string \<Rightarrow> int \<Rightarrow> int \<Rightarrow> string" where
  "py_slice s a b =
     (let lo = slice_bound (length s) a; hi = slice_bound (length s) b
      in take (hi - lo) (drop lo s))"

text \<open>
  \<^verbatim>\<open>clean_json_response\<close> (lines 104 to 122). The result \<open>JNull\<close> is the
  \<^verbatim>\<open>None\<close> of the last line.
\<close>

definition clean_json_response :: "string \<Rightarrow> json \<times> event list" where
  "clean_json_response raw_text =
     (let start = find_char (CHR ''['') raw_text;
          endp = rfind_char (CHR '']'') raw_text
      in if start \<noteq> -1 \<and> endp \<noteq> -1 then
           (let json_str = py_slice raw_text start (endp + 1)
            in case json_loads json_str of
                 Inr v \<Rightarrow> (v, [])
               | Inl JSONDecodeError \<Rightarrow> (JNull, [ParseError])
               | Inl (DecoderFault e) \<Rightarrow> (JNull, [UnexpectedParseError e]))
         else (JNull, []))"


section \<open>Tab 1: the chatbot\<close>

text \<open>
  The handler of the chat input (lines 164 to 180). \<^verbatim>\<open>if user_prompt:\<close> and
  \<^verbatim>\<open>if response_text:\<close> test for a text that is present and not empty.
\<close>

definition chat_submit :: "service \<Rightarrow> string \<Rightarrow> session \<Rightarrow> session \<times> event list" where
  "chat_submit svc user_prompt st =
     (if user_prompt \<noteq> [] then
        (let st1 = st\<lparr>chat_history := chat_history st @ [user_turn user_prompt]\<rparr>;
             r = get_gemini_response svc st1 user_prompt (Some (chat_history st1)) False
         in case fst r of
              None \<Rightarrow> (st1, snd r)
            | Some response_text \<Rightarrow>
                (if response_text \<noteq> []
                 then (st1\<lparr>chat_history := chat_history st1 @ [model_turn response_text]\<rparr>,
                       snd r)
                 else (st1, snd r)))
      else (st, []))"

text \<open>The button of tab 3 (lines 297 to 300).\<close>

definition clear_chat_history :: "session \<Rightarrow> session" where
  "clear_chat_history st = st\<lparr>chat_history := []\<rparr>"


section \<open>Tab 2: the quiz\<close>

definition dq :: "string \<Rightarrow> string" where
  "dq s = dquote # s @ [dquote]"

text \<open>The prompt of lines 199 to 213, with its line breaks and indentation.\<close>

definition quiz_prompt :: "string \<Rightarrow> string" where
  "quiz_prompt topic =
     concat (map (\<lambda>l. [CHR 0x0A] @ replicate 16 (CHR '' '') @ l)
       [''Generate a 20-question multiple-choice quiz on the topic: '' @ [CHR 0x27] @ topic
          @ [CHR 0x27] @ ''.'',
        ''You MUST return the quiz as a valid JSON array of objects.'',
        ''Each object must have '' @ dq ''question'' @ '', '' @ dq ''options''
          @ '' (an array of 4 strings), and '' @ dq ''correct_answer'' @ ''.'',
        ''You must follow this exact schema:'',
        ''['',
        ''    {'',
        ''        '' @ dq ''question'' @ '': '' @ dq ''The question text'' @ '','',
        ''        '' @ dq ''options'' @ '': ['' @ dq ''Option A'' @ '', '' @ dq ''Option B''
          @ '', '' @ dq ''Option C'' @ '', '' @ dq ''Option D'' @ ''],'',
        ''        '' @ dq ''correct_answer'' @ '': '' @ dq ''The text of the correct option'',
        ''    }'',
        '']'',
        ''Do not include any text, notes, or markdown backticks outside of the main JSON array.'',
        ''The '' @ dq ''options'' @ '' array MUST contain exactly 4 string items.'',
        []])"

definition clear_quiz :: "session \<Rightarrow> session" where
  "clear_quiz st = st\<lparr>quiz_questions := JArr [], user_answers := Map.empty, quiz_score := None\<rparr>"

text \<open>
  The handler of the Generate Quiz button (lines 190 to 223). \<^verbatim>\<open>if raw_response:\<close>
  is false for \<^verbatim>\<open>None\<close> and for an empty reply.
\<close>

definition generate_quiz :: "service \<Rightarrow> string \<Rightarrow> session \<Rightarrow> session \<times> event list" where
  "generate_quiz svc topic st =
     (if topic \<noteq> [] then
        (let st1 = clear_quiz st;
             r = get_gemini_response svc st1 (quiz_prompt topic) None True
         in case fst r of
              None \<Rightarrow> (st1, snd r)
            | Some raw_response \<Rightarrow>
                (if raw_response \<noteq> [] then
                   (let c = clean_json_response raw_response;
                        st2 = st1\<lparr>quiz_questions := fst c\<rparr>
                    in if \<not> truthy (quiz_questions st2)
                       then (st2, snd r @ snd c @ [InvalidQuizData])
                       else (st2, snd r @ snd c))
                 else (st1, snd r)))
      else (st, [TopicWarning]))"

text \<open>
  The test of line 235, with the short circuit of \<^verbatim>\<open>or\<close>: a later operand is
  evaluated only when the earlier ones are false.
\<close>

definition malformed :: "json \<Rightarrow> py_error + bool" where
  "malformed q =
     (case py_in ''question'' q of
        Inl e \<Rightarrow> Inl e
      | Inr False \<Rightarrow> Inr True
      | Inr True \<Rightarrow>
          (case py_in ''options'' q of
             Inl e \<Rightarrow> Inl e
           | Inr False \<Rightarrow> Inr True
           | Inr True \<Rightarrow>
               (case py_getitem q ''options'' of
                  Inl e \<Rightarrow> Inl e
                | Inr opts \<Rightarrow> Inr (\<not> is_list opts))))"

text \<open>
  The widget \<^verbatim>\<open>st.radio\<close> is a parameter: given the index of the question and its
  options it returns what is selected. Untouched, it selects the first option, and
  nothing (\<^verbatim>\<open>None\<close>) when there is no option.
\<close>

type_synonym radio = "nat \<Rightarrow> json list \<Rightarrow> json"

definition default_radio :: radio where
  "default_radio i opts = (case opts of [] \<Rightarrow> JNull | x # xs \<Rightarrow> x)"

text \<open>
  The loop of the form (lines 233 to 246) from index \<open>i\<close> on; \<open>ua\<close> is the local
  dict \<^verbatim>\<open>user_answers\<close>, \<open>ev\<close> what is on the screen so far. An exception ends the
  loop and the run of the script.
\<close>

fun render_items ::
    "radio \<Rightarrow> nat \<Rightarrow> json list \<Rightarrow> (nat \<rightharpoonup> json) \<Rightarrow> event list
      \<Rightarrow> py_error + ((nat \<rightharpoonup> json) \<times> event list)" where
  "render_items rd i [] ua ev = Inr (ua, ev)"
| "render_items rd i (q # qs) ua ev =
     (case malformed q of
        Inl e \<Rightarrow> Inl e
      | Inr True \<Rightarrow> render_items rd (i + 1) qs ua (ev @ [SkippedQuestion (i + 1) q])
      | Inr False \<Rightarrow>
          (case py_getitem q ''question'' of
             Inl e \<Rightarrow> Inl e
           | Inr text \<Rightarrow>
               (case py_getitem q ''options'' of
                  Inl e \<Rightarrow> Inl e
                | Inr opts \<Rightarrow>
                    (case py_iter opts of
                       Inl e \<Rightarrow> Inl e
                     | Inr os \<Rightarrow>
                         render_items rd (i + 1) qs (ua(i \<mapsto> rd i os))
                           (ev @ [QuestionShown (i + 1) text])))))"

text \<open>The grading loop (lines 253 to 258) from index \<open>i\<close> on.\<close>

fun grade :: "(nat \<rightharpoonup> json) \<Rightarrow> nat \<Rightarrow> json list \<Rightarrow> int \<Rightarrow> py_error + int" where
  "grade ua i [] score = Inr score"
| "grade ua i (q # qs) score =
     (case ua i of
        None \<Rightarrow> grade ua (i + 1) qs score
      | Some a \<Rightarrow>
          (case py_in ''correct_answer'' q of
             Inl e \<Rightarrow> Inl e
           | Inr False \<Rightarrow> grade ua (i + 1) qs score
           | Inr True \<Rightarrow>
               (case py_getitem q ''correct_answer'' of
                  Inl e \<Rightarrow> Inl e
                | Inr c \<Rightarrow> grade ua (i + 1) qs (if py_eq a c then score + 1 else score))))"

text \<open>
  The submit handler (lines 250 to 259) on the answers the form collected. An
  exception leaves the session as it is at that point: the answers stored, the score
  untouched.
\<close>

definition submit_answers :: "(nat \<rightharpoonup> json) \<Rightarrow> session \<Rightarrow> (py_error \<times> session) + session" where
  "submit_answers ua st =
     (let st1 = st\<lparr>user_answers := ua\<rparr>
      in case py_iter (quiz_questions st1) of
           Inl e \<Rightarrow> Inl (e, st1)
         | Inr items \<Rightarrow>
             (case grade (user_answers st1) 0 items 0 of
                Inl e \<Rightarrow> Inl (e, st1)
              | Inr score \<Rightarrow> Inr (st1\<lparr>quiz_score := Some score\<rparr>)))"

text \<open>
  The quiz form of one run of the script (lines 226 to 260): shown when there are
  questions; \<open>submit_button\<close> says whether this run is the press of Submit Answers.
\<close>

definition quiz_form ::
    "radio \<Rightarrow> bool \<Rightarrow> session \<Rightarrow> (py_error \<times> session) + (session \<times> event list)" where
  "quiz_form rd submit_button st =
     (if truthy (quiz_questions st) then
        (case py_iter (quiz_questions st) of
           Inl e \<Rightarrow> Inl (e, st)
         | Inr items \<Rightarrow>
             (case render_items rd 0 items Map.empty [] of
                Inl e \<Rightarrow> Inl (e, st)
              | Inr r \<Rightarrow>
                  (if submit_button then
                     (case submit_answers (fst r) st of
                        Inl e \<Rightarrow> Inl e
                      | Inr st' \<Rightarrow> Inr (st', snd r))
                   else Inr (st, snd r))))
      else Inr (st, []))"

text \<open>
  The Take Another Quiz button (lines 285 to 290); it is on the screen only when there
  is a score.
\<close>

definition retake :: "session \<Rightarrow> session" where
  "retake st = (if quiz_score st \<noteq> None then clear_quiz st else st)"

text \<open>The session states the user can bring about, one action per run of the script.\<close>

inductive reachable :: "session \<Rightarrow> bool" where
  r_init: "reachable init_session"
| r_chat: "reachable st \<Longrightarrow> reachable (fst (chat_submit svc user_prompt st))"
| r_clear: "reachable st \<Longrightarrow> reachable (clear_chat_history st)"
| r_generate: "reachable st \<Longrightarrow> reachable (fst (generate_quiz svc topic st))"
| r_form: "reachable st \<Longrightarrow> quiz_form rd b st = Inr (st', ev) \<Longrightarrow> reachable st'"
| r_form_raise: "reachable st \<Longrightarrow> quiz_form rd b st = Inl (e, st') \<Longrightarrow> reachable st'"
| r_retake: "reachable st \<Longrightarrow> reachable (retake st)"


section \<open>Notions used in the statements\<close>

text \<open>The parser's stack has an array at its bottom.\<close>

fun is_arr_frame :: "frame \<Rightarrow> bool" where
  "is_arr_frame (FArr xs a) = True"
| "is_arr_frame (FObj kvs s) = False"

definition arr_bottom :: "frame list \<Rightarrow> bool" where
  "arr_bottom fs = (fs \<noteq> [] \<and> is_arr_frame (last fs))"

text \<open>
  The reply of the specification's example: a sentence, a fenced block, and in it an
  array of one quiz item.
\<close>

definition example_body :: string where
  "example_body =
     ''{'' @ dq ''question'' @ '':'' @ dq ''Q'' @ '','' @ dq ''options'' @ '':['' @ dq ''A''
       @ '','' @ dq ''B'' @ ''],'' @ dq ''correct_answer'' @ '':'' @ dq ''A'' @ ''}''"

definition example_array :: string where
  "example_array = CHR ''['' # example_body @ '']''"

definition fence :: string where
  "fence = [CHR 0x60, CHR 0x60, CHR 0x60]"

definition example_reply :: string where
  "example_reply =
     (''Here you go:'' @ [CHR 0x0A] @ fence @ ''json'' @ [CHR 0x0A]) @ example_array
       @ ([CHR 0x0A] @ fence)"

definition example_item :: json where
  "example_item =
     JObj [(''question'', JStr ''Q''), (''options'', JArr [JStr ''A'', JStr ''B'']),
           (''correct_answer'', JStr ''A'')]"





text \<open>The requests made of the service, and the session states recorded with them.\<close>

fun requests_of :: "event list \<Rightarrow> request list" where
  "requests_of [] = []"
| "requests_of (Called req st # ev) = req # requests_of ev"
| "requests_of (x # ev) = requests_of ev"

fun snapshots_of :: "event list \<Rightarrow> session list" where
  "snapshots_of [] = []"
| "snapshots_of (Called req st # ev) = st # snapshots_of ev"
| "snapshots_of (x # ev) = snapshots_of ev"

text \<open>A session with no quiz, as the session starts.\<close>

definition quiz_cleared :: "session \<Rightarrow> bool" where
  "quiz_cleared st =
     (quiz_questions st = JArr [] \<and> user_answers st = Map.empty \<and> quiz_score st = None)"

fun is_dict :: "json \<Rightarrow> bool" where
  "is_dict (JObj kvs) = True"
| "is_dict _ = False"

text \<open>
  The invariant of the quiz state. The questions are a list or \<^verbatim>\<open>None\<close>. A score
  is there only together with a list of questions that is not empty, and it is the
  result of grading the stored answers against that list. Every key of the answers is
  an index of the list.
\<close>

definition quiz_inv :: "session \<Rightarrow> bool" where
  "quiz_inv st =
     (case quiz_questions st of
        JArr items \<Rightarrow>
          dom (user_answers st) \<subseteq> {..<length items}
          \<and> (case quiz_score st of
               None \<Rightarrow> True
             | Some n \<Rightarrow> items \<noteq> [] \<and> grade (user_answers st) 0 items 0 = Inr n)
      | JNull \<Rightarrow> user_answers st = Map.empty \<and> quiz_score st = None
      | _ \<Rightarrow> False)"

text \<open>
  A session whose quiz has been graded: the quiz of the example reply, submitted with
  the first option selected.
\<close>

definition graded_session :: session where
  "graded_session =
     init_session\<lparr>quiz_questions := JArr [example_item], user_answers := [0 \<mapsto> JStr ''A''],
       quiz_score := Some 1\<rparr>"

text \<open>A reply whose array holds a number before the quiz item of the example.\<close>

definition mixed_reply :: string where
  "mixed_reply = CHR ''['' # (''1, '' @ example_body) @ '']''"


section \<open>The sanitizer\<close>

subsection \<open>Searching and slicing\<close>

lemma find_char_absent: "c \<notin> set s \<Longrightarrow> find_char c s = -1"
  by (induction s) auto

lemma find_char_range: "-1 \<le> find_char c s \<and> find_char c s < int (length s)"
  by (induction s) (auto simp: Let_def)

lemma find_char_present: "c \<in> set s \<Longrightarrow> find_char c s \<noteq> -1"
proof (induction s)
  case Nil
  then show ?case by simp
next
  case (Cons x xs)
  have "-1 \<le> find_char c xs" using find_char_range by blast
  with Cons show ?case by (auto simp: Let_def)
qed

lemma find_char_nth: "find_char c s \<noteq> -1 \<Longrightarrow> s ! nat (find_char c s) = c"
proof (induction s)
  case Nil
  then show ?case by simp
next
  case (Cons x xs)
  show ?case
  proof (cases "x = c")
    case True
    then show ?thesis by simp
  next
    case False
    with Cons.prems have ne: "find_char c xs \<noteq> -1" by (auto simp: Let_def split: if_splits)
    with find_char_range [of c xs] have "0 \<le> find_char c xs" by arith
    then have "nat (find_char c xs + 1) = Suc (nat (find_char c xs))" by arith
    with False ne Cons.IH show ?thesis by (simp add: Let_def)
  qed
qed

lemma find_char_append: "c \<notin> set pre \<Longrightarrow> find_char c (pre @ c # rest) = int (length pre)"
  by (induction pre) (auto simp: Let_def)

lemma rfind_char_absent: "c \<notin> set s \<Longrightarrow> rfind_char c s = -1"
  by (induction s) (auto simp: Let_def)

lemma rfind_char_range: "-1 \<le> rfind_char c s \<and> rfind_char c s < int (length s)"
  by (induction s) (auto simp: Let_def)

lemma rfind_char_present: "c \<in> set s \<Longrightarrow> rfind_char c s \<noteq> -1"
proof (induction s)
  case Nil
  then show ?case by simp
next
  case (Cons x xs)
  have "-1 \<le> rfind_char c xs" using rfind_char_range by blast
  with Cons show ?case by (auto simp: Let_def)
qed

lemma rfind_char_nth: "rfind_char c s \<noteq> -1 \<Longrightarrow> s ! nat (rfind_char c s) = c"
proof (induction s)
  case Nil
  then show ?case by simp
next
  case (Cons x xs)
  show ?case
  proof (cases "rfind_char c xs = -1")
    case True
    with Cons.prems show ?thesis by (auto simp: Let_def split: if_splits)
  next
    case False
    with rfind_char_range [of c xs] have "0 \<le> rfind_char c xs" by arith
    then have "nat (rfind_char c xs + 1) = Suc (nat (rfind_char c xs))" by arith
    with False Cons.IH show ?thesis by (simp add: Let_def)
  qed
qed

lemma rfind_char_append: "c \<notin> set suf \<Longrightarrow> rfind_char c (pre @ c # suf) = int (length pre)"
  by (induction pre) (auto simp: Let_def rfind_char_absent)

lemma py_slice_nonneg:
  "0 \<le> a \<Longrightarrow> 0 \<le> b \<Longrightarrow> py_slice s a b = take (nat b - nat a) (drop (nat a) s)"
  by (auto simp: py_slice_def slice_bound_def Let_def min_def)

lemma py_slice_middle:
  "py_slice (pre @ mid @ suf) (int (length pre)) (int (length pre + length mid)) = mid"
  by (simp add: py_slice_def slice_bound_def Let_def)

subsection \<open>A text that opens with a bracket decodes to an array or not at all\<close>

lemma push_value_shape:
  "push_value v fs = Some st \<Longrightarrow>
     (fs = [] \<and> st = PDone v) \<or>
     (\<exists>f f' fs'. fs = f # fs' \<and> st = PStack (f' # fs') \<and> is_arr_frame f' = is_arr_frame f)"
  by (induction v fs rule: push_value.induct) auto

lemma parse_step_arr_bottom:
  assumes "arr_bottom fs" and "parse_step t fs = Some st"
  shows "(\<exists>fs'. st = PStack fs' \<and> arr_bottom fs') \<or> (\<exists>xs. st = PDone (JArr xs))"
proof (cases t)
  case LBrack
  with assms show ?thesis by (auto simp: arr_bottom_def split: if_splits)
next
  case LBrace
  with assms show ?thesis by (auto simp: arr_bottom_def split: if_splits)
next
  case RBrack
  with assms show ?thesis
    by (auto simp: arr_bottom_def split: list.splits frame.splits astate.splits if_splits
        dest!: push_value_shape)
next
  case RBrace
  with assms show ?thesis
    by (auto simp: arr_bottom_def split: list.splits frame.splits ostate.splits if_splits
        dest!: push_value_shape)
next
  case Comma
  with assms show ?thesis
    by (auto simp: arr_bottom_def split: list.splits frame.splits astate.splits ostate.splits if_splits)
next
  case Colon
  with assms show ?thesis
    by (auto simp: arr_bottom_def split: list.splits frame.splits ostate.splits if_splits)
next
  case (Scalar v)
  with assms show ?thesis
    by (auto simp: arr_bottom_def split: list.splits frame.splits json.splits if_splits
        dest!: push_value_shape)
qed

lemma parse_tokens_done: "parse_tokens ts (PDone v) = Some w \<Longrightarrow> w = v"
  by (cases ts) auto

lemma parse_tokens_arr_bottom:
  "arr_bottom fs \<Longrightarrow> parse_tokens ts (PStack fs) = Some v \<Longrightarrow> \<exists>xs. v = JArr xs"
proof (induction ts arbitrary: fs)
  case Nil
  then show ?case by simp
next
  case (Cons t ts)
  from Cons.prems(2) obtain st where st: "parse_step t fs = Some st" and run: "parse_tokens ts st = Some v"
    by (auto split: option.splits)
  from parse_step_arr_bottom [OF Cons.prems(1) st] show ?case
  proof
    assume "\<exists>fs'. st = PStack fs' \<and> arr_bottom fs'"
    with run Cons.IH show ?thesis by blast
  next
    assume "\<exists>xs. st = PDone (JArr xs)"
    with run parse_tokens_done show ?thesis by blast
  qed
qed

lemma lex_open_bracket: "lex (CHR ''['' # cs) = emit [LBrack] (lex_go MIdle cs)"
  by (simp add: lex_def is_word_char_def punct_def is_space_def)

lemma json_loads_bracket:
  assumes "json_loads (CHR ''['' # cs) = Inr v"
  shows "\<exists>xs. v = JArr xs"
proof -
  from assms obtain ts where l: "lex (CHR ''['' # cs) = Some ts"
    and p: "parse_tokens ts (PStack []) = Some v"
    by (auto simp: json_loads_def split: option.splits)
  from l obtain ts' where ts: "ts = LBrack # ts'"
    by (auto simp: lex_open_bracket emit_def)
  with p have "parse_tokens ts' (PStack [FArr [] AStart]) = Some v" by simp
  moreover have "arr_bottom [FArr [] AStart]" by (simp add: arr_bottom_def)
  ultimately show ?thesis by (rule parse_tokens_arr_bottom [rotated])
qed

lemma json_loads_empty: "json_loads [] = Inl JSONDecodeError"
  by (simp add: json_loads_def lex_def)


subsection \<open>Claims about \<^verbatim>\<open>clean_json_response\<close>\<close>

text \<open>
  C5. When the raw text has no \<^verbatim>\<open>[\<close> or has no \<^verbatim>\<open>]\<close>, the sanitizer fails: it
  returns \<^verbatim>\<open>None\<close>, no quiz item, and shows nothing itself (the message is the
  caller's).
\<close>

theorem clean_json_response_no_bracket:
  assumes "CHR ''['' \<notin> set raw \<or> CHR '']'' \<notin> set raw"
  shows "clean_json_response raw = (JNull, [])"
  using assms
  by (auto simp: clean_json_response_def Let_def find_char_absent rfind_char_absent)

theorem clean_json_response_no_bracket_witness:
  "CHR '']'' \<notin> set ''Sorry, [no quiz'' \<and> clean_json_response ''Sorry, [no quiz'' = (JNull, [])"
proof -
  have h: "CHR '']'' \<notin> set ''Sorry, [no quiz''" by simp
  then have "CHR ''['' \<notin> set ''Sorry, [no quiz'' \<or> CHR '']'' \<notin> set ''Sorry, [no quiz''" ..
  from h clean_json_response_no_bracket [OF this] show ?thesis by blast
qed

lemma extracted_shape:
  assumes s: "find_char (CHR ''['') raw \<noteq> -1" and e: "rfind_char (CHR '']'') raw \<noteq> -1"
  shows "py_slice raw (find_char (CHR ''['') raw) (rfind_char (CHR '']'') raw + 1) = []
     \<or> (\<exists>body. py_slice raw (find_char (CHR ''['') raw) (rfind_char (CHR '']'') raw + 1)
            = CHR ''['' # body @ '']'')"
proof -
  define i where "i = nat (find_char (CHR ''['') raw)"
  define j where "j = nat (rfind_char (CHR '']'') raw)"
  from s find_char_range [of "CHR ''[''" raw]
  have i: "find_char (CHR ''['') raw = int i" "i < length raw" by (auto simp: i_def)
  from e rfind_char_range [of "CHR '']''" raw]
  have j: "rfind_char (CHR '']'') raw = int j" "j < length raw" by (auto simp: j_def)
  have ri: "raw ! i = CHR ''[''" using find_char_nth [OF s] by (simp add: i_def)
  have rj: "raw ! j = CHR '']''" using rfind_char_nth [OF e] by (simp add: j_def)
  have sl: "py_slice raw (int i) (int j + 1) = take (Suc j - i) (drop i raw)"
    using py_slice_nonneg [of "int i" "int j + 1" raw] by (simp add: nat_add_distrib)
  show ?thesis
  proof (cases "i < j")
    case False
    with ri rj have "j < i" by (cases "i = j") auto
    then show ?thesis by (simp add: i j sl)
  next
    case True
    define k where "k = j - i - 1"
    from True have jk: "j = Suc i + k" by (simp add: k_def)
    have d: "drop i raw = raw ! i # drop (Suc i) raw"
      using i(2) by (simp add: Cons_nth_drop_Suc)
    have kl: "k < length (drop (Suc i) raw)" using j(2) jk by simp
    have "take (Suc j - i) (drop i raw) = raw ! i # take (Suc k) (drop (Suc i) raw)"
      using d jk by simp
    also have "take (Suc k) (drop (Suc i) raw) = take k (drop (Suc i) raw) @ [drop (Suc i) raw ! k]"
      using kl by (rule take_Suc_conv_app_nth)
    also have "drop (Suc i) raw ! k = raw ! j" using j(2) jk by simp
    finally show ?thesis by (simp add: i j sl ri rj)
  qed
qed

lemma slice_decodes_to_array:
  assumes "find_char (CHR ''['') raw \<noteq> -1" and "rfind_char (CHR '']'') raw \<noteq> -1"
    and "json_loads (py_slice raw (find_char (CHR ''['') raw) (rfind_char (CHR '']'') raw + 1))
         = Inr v"
  shows "\<exists>xs body. v = JArr xs
         \<and> py_slice raw (find_char (CHR ''['') raw) (rfind_char (CHR '']'') raw + 1)
             = CHR ''['' # body @ '']''"
proof -
  let ?str = "py_slice raw (find_char (CHR ''['') raw) (rfind_char (CHR '']'') raw + 1)"
  from assms(3) have "?str \<noteq> []" by (auto simp: json_loads_empty)
  with extracted_shape [OF assms(1,2)] obtain body where b: "?str = CHR ''['' # body @ '']''"
    by blast
  with assms(3) json_loads_bracket obtain xs where "v = JArr xs" by metis
  with b show ?thesis by blast
qed

lemma clean_json_response_decoded:
  assumes "fst (clean_json_response raw) \<noteq> JNull"
  shows "find_char (CHR ''['') raw \<noteq> -1 \<and> rfind_char (CHR '']'') raw \<noteq> -1
       \<and> json_loads (py_slice raw (find_char (CHR ''['') raw) (rfind_char (CHR '']'') raw + 1))
           = Inr (fst (clean_json_response raw))"
  using assms
  by (auto simp: clean_json_response_def Let_def split: if_splits sum.splits json_error.splits)

lemma clean_json_response_list_or_none:
  "fst (clean_json_response raw) = JNull \<or> (\<exists>xs. fst (clean_json_response raw) = JArr xs)"
  using clean_json_response_decoded [of raw] slice_decodes_to_array [of raw]
  by blast

text \<open>
  C10. Whatever the sanitizer returns other than \<^verbatim>\<open>None\<close> is a list (a JSON
  array), never an object, a string, a number or a boolean: the text it decoded is the
  slice from the first \<^verbatim>\<open>[\<close> to the last \<^verbatim>\<open>]\<close> of the raw text, which opens
  with the one and closes with the other.
\<close>

theorem clean_json_response_array_only:
  assumes "fst (clean_json_response raw) \<noteq> JNull"
  shows "\<exists>xs body.
           fst (clean_json_response raw) = JArr xs
         \<and> py_slice raw (find_char (CHR ''['') raw) (rfind_char (CHR '']'') raw + 1)
             = CHR ''['' # body @ '']''"
proof -
  from clean_json_response_decoded [OF assms]
  have "find_char (CHR ''['') raw \<noteq> -1" and "rfind_char (CHR '']'') raw \<noteq> -1"
    and "json_loads (py_slice raw (find_char (CHR ''['') raw) (rfind_char (CHR '']'') raw + 1))
           = Inr (fst (clean_json_response raw))"
    by blast+
  then show ?thesis by (rule slice_decodes_to_array)
qed

lemma clean_json_response_embedded:
  assumes "CHR ''['' \<notin> set pre" and "CHR '']'' \<notin> set suf"
  shows "clean_json_response (pre @ (CHR ''['' # body @ '']'') @ suf)
         = (case json_loads (CHR ''['' # body @ '']'') of
              Inr v \<Rightarrow> (v, [])
            | Inl JSONDecodeError \<Rightarrow> (JNull, [ParseError])
            | Inl (DecoderFault e) \<Rightarrow> (JNull, [UnexpectedParseError e]))"
proof -
  let ?raw = "pre @ (CHR ''['' # body @ '']'') @ suf"
  have f: "find_char (CHR ''['') ?raw = int (length pre)"
    using find_char_append [OF assms(1), of "body @ '']'' @ suf"] by simp
  have "rfind_char (CHR '']'') ((pre @ CHR ''['' # body) @ CHR '']'' # suf)
        = int (length (pre @ CHR ''['' # body))"
    using assms(2) by (rule rfind_char_append)
  then have r: "rfind_char (CHR '']'') ?raw = int (length pre) + int (length body) + 1" by simp
  have "py_slice ?raw (int (length pre)) (int (length pre + length (CHR ''['' # body @ '']'')))
        = CHR ''['' # body @ '']''"
    by (rule py_slice_middle)
  then have "py_slice ?raw (int (length pre)) (int (length pre) + int (length body) + 1 + 1)
        = CHR ''['' # body @ '']''"
    by (simp add: add.commute add.left_commute)
  with f r show ?thesis by (simp add: clean_json_response_def Let_def)
qed

lemma json_loads_example: "json_loads example_array = Inr (JArr [example_item])"
  by code_simp

lemma clean_json_response_example:
  "clean_json_response example_reply = (JArr [example_item], [])"
proof -
  have a: "CHR ''['' \<notin> set (''Here you go:'' @ [CHR 0x0A] @ fence @ ''json'' @ [CHR 0x0A])"
    by (simp add: fence_def)
  have b: "CHR '']'' \<notin> set ([CHR 0x0A] @ fence)"
    by (simp add: fence_def)
  show ?thesis
    unfolding example_reply_def example_array_def
    using clean_json_response_embedded [OF a b, of example_body] json_loads_example
    by (simp add: example_array_def)
qed

theorem clean_json_response_array_only_witness:
  "fst (clean_json_response example_reply) \<noteq> JNull
   \<and> (\<exists>xs body. fst (clean_json_response example_reply) = JArr xs
        \<and> py_slice example_reply (find_char (CHR ''['') example_reply)
             (rfind_char (CHR '']'') example_reply + 1) = CHR ''['' # body @ '']'')"
proof -
  have h: "fst (clean_json_response example_reply) \<noteq> JNull"
    by (simp add: clean_json_response_example)
  from h clean_json_response_array_only [OF h] show ?thesis by blast
qed

text \<open>
  C2, as amended. When the raw text is a prefix without \<^verbatim>\<open>[\<close>, then the text of
  a JSON array, then a suffix without \<^verbatim>\<open>]\<close>, the sanitizer returns the decoded
  array unchanged and shows no message. The reply of the example is of that form, and
  the result is the list of one quiz item whose question is Q.
\<close>

theorem clean_json_response_embedded_array:
  assumes "CHR ''['' \<notin> set pre" and "CHR '']'' \<notin> set suf"
    and "json_loads (CHR ''['' # body @ '']'') = Inr v"
  shows "clean_json_response (pre @ (CHR ''['' # body @ '']'') @ suf) = (v, [])
       \<and> clean_json_response example_reply = (JArr [example_item], [])
       \<and> py_getitem example_item ''question'' = Inr (JStr ''Q'')"
proof -
  have "clean_json_response (pre @ (CHR ''['' # body @ '']'') @ suf) = (v, [])"
    using clean_json_response_embedded [OF assms(1,2), of body] assms(3) by simp
  moreover have "clean_json_response example_reply = (JArr [example_item], [])"
    by (rule clean_json_response_example)
  moreover have "py_getitem example_item ''question'' = Inr (JStr ''Q'')" by code_simp
  ultimately show ?thesis by blast
qed

theorem clean_json_response_embedded_array_witness:
  "CHR ''['' \<notin> set ''Sure: '' \<and> CHR '']'' \<notin> set '' Done.''
   \<and> json_loads (CHR ''['' # ''1, 2'' @ '']'') = Inr (JArr [JInt 1, JInt 2])
   \<and> clean_json_response (''Sure: '' @ (CHR ''['' # ''1, 2'' @ '']'') @ '' Done.'')
       = (JArr [JInt 1, JInt 2], [])"
proof -
  have a: "CHR ''['' \<notin> set ''Sure: ''" by simp
  have b: "CHR '']'' \<notin> set '' Done.''" by simp
  have c: "json_loads (CHR ''['' # ''1, 2'' @ '']'') = Inr (JArr [JInt 1, JInt 2])" by code_simp
  from a b c clean_json_response_embedded_array [OF a b c] show ?thesis by blast
qed

text \<open>
  C2 as stated fails when the prose around the array has a bracket of its own: the
  slice then starts in the prose, and the array that is there, valid on its own, is
  not returned.
\<close>

theorem clean_json_response_prose_counterexample:
  "json_loads example_array = Inr (JArr [example_item])
   \<and> clean_json_response (''Quiz [easy]: '' @ example_array @ '' Good luck!'')
       = (JNull, [ParseError])"
proof -
  have a: "CHR ''['' \<notin> set ''Quiz ''" by simp
  have b: "CHR '']'' \<notin> set '' Good luck!''" by simp
  have c: "json_loads (CHR ''['' # (''easy]: '' @ CHR ''['' # example_body) @ '']'')
           = Inl JSONDecodeError"
    by code_simp
  have eq: "''Quiz [easy]: '' @ example_array @ '' Good luck!''
        = ''Quiz '' @ (CHR ''['' # (''easy]: '' @ CHR ''['' # example_body) @ '']'') @ '' Good luck!''"
    by (simp add: example_array_def)
  have "clean_json_response
          (''Quiz '' @ (CHR ''['' # (''easy]: '' @ CHR ''['' # example_body) @ '']'') @ '' Good luck!'')
        = (JNull, [ParseError])"
    using clean_json_response_embedded [OF a b, of "''easy]: '' @ CHR ''['' # example_body"] c
    by simp
  then have "clean_json_response (''Quiz [easy]: '' @ example_array @ '' Good luck!'')
        = (JNull, [ParseError])"
    by (simp only: eq)
  with json_loads_example show ?thesis by blast
qed


section \<open>The conversation\<close>

lemma chat_submit_requests:
  assumes "user_prompt \<noteq> []"
  shows "requests_of (snd (chat_submit svc user_prompt st))
         = [ChatRequest (chat_history st @ [user_turn user_prompt]) user_prompt]"
  using assms
  by (auto simp: chat_submit_def get_gemini_response_def Let_def split: sum.splits)

lemma chat_submit_delivered:
  assumes "user_prompt \<noteq> []"
  shows "map delivered (requests_of (snd (chat_submit svc user_prompt st)))
         = [chat_history st @ [user_turn user_prompt, user_turn user_prompt]]"
  by (simp add: chat_submit_requests [OF assms])

text \<open>
  C3. On a conversation that is empty so far, the prompt Hi reaches the service twice:
  the handler appends the user turn to the history, starts the chat on that history
  and then sends the same prompt as the message. One request is made, and the turns it
  delivers are the user turn Hi followed by the user turn Hi.
\<close>

theorem chat_submit_delivers_prompt_twice:
  "map delivered (requests_of (snd (chat_submit (\<lambda>req. Inr ''Hello!'') ''Hi'' init_session)))
     = [[user_turn ''Hi'', user_turn ''Hi'']]
   \<and> count_list [user_turn ''Hi'', user_turn ''Hi''] (user_turn ''Hi'') = 2"
  by (simp add: chat_submit_delivered init_session_def)

text \<open>
  C4. When the call of the service fails during a conversational send, the history
  afterwards is the history before followed by the user turn alone: no model turn is
  appended, the last turn is the unanswered user turn, and the error is shown.
\<close>

theorem chat_submit_gateway_failure:
  assumes "user_prompt \<noteq> []"
    and "svc (ChatRequest (chat_history st @ [user_turn user_prompt]) user_prompt) = Inl e"
  shows "chat_history (fst (chat_submit svc user_prompt st))
           = chat_history st @ [user_turn user_prompt]
       \<and> role (last (chat_history (fst (chat_submit svc user_prompt st)))) = ''user''
       \<and> model_turn t \<notin> set (drop (length (chat_history st))
                                (chat_history (fst (chat_submit svc user_prompt st))))
       \<and> list_ex is_error (snd (chat_submit svc user_prompt st))"
  using assms
  by (simp add: chat_submit_def get_gemini_response_def Let_def user_turn_def model_turn_def)

theorem chat_submit_gateway_failure_witness:
  "''Hi'' \<noteq> []
   \<and> (\<lambda>req. Inl ''unavailable'' :: string + string)
        (ChatRequest (chat_history init_session @ [user_turn ''Hi'']) ''Hi'') = Inl ''unavailable''
   \<and> chat_history (fst (chat_submit (\<lambda>req. Inl ''unavailable'') ''Hi'' init_session))
        = [user_turn ''Hi'']"
proof -
  have a: "''Hi'' \<noteq> []" by simp
  have b: "(\<lambda>req. Inl ''unavailable'' :: string + string)
        (ChatRequest (chat_history init_session @ [user_turn ''Hi'']) ''Hi'') = Inl ''unavailable''"
    by simp
  from a b chat_submit_gateway_failure [where user_prompt = "''Hi''" and st = init_session
      and svc = "\<lambda>req. Inl ''unavailable''" and e = "''unavailable''"]
  have "chat_history (fst (chat_submit (\<lambda>req. Inl ''unavailable'') ''Hi'' init_session))
        = chat_history init_session @ [user_turn ''Hi'']"
    by blast
  with a b show ?thesis by (simp add: init_session_def)
qed

section \<open>Generating a quiz\<close>

lemma generate_quiz_gateway_failure:
  assumes "topic \<noteq> []" and "svc (ContentRequest (quiz_prompt topic) True) = Inl e"
  shows "generate_quiz svc topic st
         = (clear_quiz st,
            [Called (ContentRequest (quiz_prompt topic) True) (clear_quiz st), ApiError e])"
  using assms by (simp add: generate_quiz_def get_gemini_response_def Let_def)

lemma generate_quiz_reply:
  assumes "topic \<noteq> []" and "svc (ContentRequest (quiz_prompt topic) True) = Inr raw"
    and "raw \<noteq> []"
  shows "generate_quiz svc topic st
         = ((clear_quiz st)\<lparr>quiz_questions := fst (clean_json_response raw)\<rparr>,
            Called (ContentRequest (quiz_prompt topic) True) (clear_quiz st)
              # snd (clean_json_response raw)
              @ (if truthy (fst (clean_json_response raw)) then [] else [InvalidQuizData]))"
  using assms by (simp add: generate_quiz_def get_gemini_response_def Let_def)

lemma generate_quiz_empty_reply:
  assumes "topic \<noteq> []" and "svc (ContentRequest (quiz_prompt topic) True) = Inr []"
  shows "generate_quiz svc topic st
         = (clear_quiz st, [Called (ContentRequest (quiz_prompt topic) True) (clear_quiz st)])"
  using assms by (simp add: generate_quiz_def get_gemini_response_def Let_def)

lemma quiz_form_no_questions:
  "\<not> truthy (quiz_questions st) \<Longrightarrow> quiz_form rd b st = Inr (st, [])"
  by (simp add: quiz_form_def)

text \<open>
  The failures that are reported. When a quiz is asked for with a topic and the call of
  the service fails, or the reply has a text and the sanitizer returns \<^verbatim>\<open>None\<close>
  or an empty list on it, the session holds no quiz afterwards: the questions are the
  empty list or \<^verbatim>\<open>None\<close>, there are no answers and no score, the quiz form is
  not shown, and an error message is on the screen.
\<close>

lemma generate_quiz_failure:
  assumes "topic \<noteq> []"
    and "svc (ContentRequest (quiz_prompt topic) True) = Inl e
         \<or> (\<exists>raw. svc (ContentRequest (quiz_prompt topic) True) = Inr raw \<and> raw \<noteq> []
                \<and> (fst (clean_json_response raw) = JNull
                    \<or> fst (clean_json_response raw) = JArr []))"
  shows "(quiz_questions (fst (generate_quiz svc topic st)) = JArr []
          \<or> quiz_questions (fst (generate_quiz svc topic st)) = JNull)
       \<and> user_answers (fst (generate_quiz svc topic st)) = Map.empty
       \<and> quiz_score (fst (generate_quiz svc topic st)) = None
       \<and> quiz_form rd b (fst (generate_quiz svc topic st)) = Inr (fst (generate_quiz svc topic st), [])
       \<and> list_ex is_error (snd (generate_quiz svc topic st))"
proof -
  let ?st' = "fst (generate_quiz svc topic st)"
  have "(quiz_questions ?st' = JArr [] \<or> quiz_questions ?st' = JNull)
       \<and> user_answers ?st' = Map.empty \<and> quiz_score ?st' = None
       \<and> list_ex is_error (snd (generate_quiz svc topic st))"
    using assms(2)
  proof
    assume "svc (ContentRequest (quiz_prompt topic) True) = Inl e"
    with assms(1) generate_quiz_gateway_failure [of topic svc e st] show ?thesis
      by (simp add: clear_quiz_def)
  next
    assume "\<exists>raw. svc (ContentRequest (quiz_prompt topic) True) = Inr raw \<and> raw \<noteq> []
                \<and> (fst (clean_json_response raw) = JNull
                    \<or> fst (clean_json_response raw) = JArr [])"
    then obtain raw where r: "svc (ContentRequest (quiz_prompt topic) True) = Inr raw" "raw \<noteq> []"
      and c: "fst (clean_json_response raw) = JNull \<or> fst (clean_json_response raw) = JArr []"
      by blast
    from c r assms(1) generate_quiz_reply [of topic svc raw st] show ?thesis
      by (auto simp: clear_quiz_def)
  qed
  moreover from this have "\<not> truthy (quiz_questions ?st')" by auto
  then have "quiz_form rd b ?st' = Inr (?st', [])" by (rule quiz_form_no_questions)
  ultimately show ?thesis by blast
qed

lemma generate_quiz_failure_example:
  "''birds'' \<noteq> []
   \<and> (\<lambda>req. Inr ''Sorry, [no quiz'' :: string + string) (ContentRequest (quiz_prompt ''birds'') True)
        = Inr ''Sorry, [no quiz''
   \<and> ''Sorry, [no quiz'' \<noteq> []
   \<and> fst (clean_json_response ''Sorry, [no quiz'') = JNull
   \<and> quiz_questions (fst (generate_quiz (\<lambda>req. Inr ''Sorry, [no quiz'') ''birds'' init_session)) = JNull
   \<and> list_ex is_error (snd (generate_quiz (\<lambda>req. Inr ''Sorry, [no quiz'') ''birds'' init_session))"
proof -
  let ?svc = "\<lambda>req. Inr ''Sorry, [no quiz'' :: string + string"
  have a: "''birds'' \<noteq> []" by simp
  have c: "fst (clean_json_response ''Sorry, [no quiz'') = JNull"
    by (simp add: clean_json_response_def Let_def)
  have b: "?svc (ContentRequest (quiz_prompt ''birds'') True) = Inl []
         \<or> (\<exists>raw. ?svc (ContentRequest (quiz_prompt ''birds'') True) = Inr raw \<and> raw \<noteq> []
                \<and> (fst (clean_json_response raw) = JNull
                    \<or> fst (clean_json_response raw) = JArr []))"
    using c by auto
  from a b generate_quiz_failure [where topic = "''birds''" and svc = ?svc and e = "[]"
      and st = init_session]
  have r: "(quiz_questions (fst (generate_quiz ?svc ''birds'' init_session)) = JArr []
          \<or> quiz_questions (fst (generate_quiz ?svc ''birds'' init_session)) = JNull)
       \<and> list_ex is_error (snd (generate_quiz ?svc ''birds'' init_session))"
    by blast
  have "quiz_questions (fst (generate_quiz ?svc ''birds'' init_session)) \<noteq> JArr []"
    using c by (simp add: generate_quiz_def get_gemini_response_def Let_def)
  with r a c show ?thesis by auto
qed


text \<open>
  C6. A reply with an empty text is a failed attempt that is not reported. The
  sanitizer returns \<^verbatim>\<open>None\<close> on the empty text, but the handler's
  \<^verbatim>\<open>if raw_response:\<close> (line 217) is false for it, so neither the sanitizer nor
  the message of line 221 is reached: from a graded session the run leaves the session
  without a quiz, and its only event is the call itself, no error among the events.
\<close>

theorem generate_quiz_empty_reply_silent:
  "clean_json_response [] = (JNull, [])
   \<and> generate_quiz (\<lambda>req. Inr []) ''birds'' graded_session
       = (init_session, [Called (ContentRequest (quiz_prompt ''birds'') True) init_session])
   \<and> \<not> list_ex is_error (snd (generate_quiz (\<lambda>req. Inr []) ''birds'' graded_session))
   \<and> quiz_form default_radio False (fst (generate_quiz (\<lambda>req. Inr []) ''birds'' graded_session))
       = Inr (init_session, [])"
proof -
  have c: "clean_json_response [] = (JNull, [])"
    by (simp add: clean_json_response_def Let_def)
  have i: "clear_quiz graded_session = init_session"
    by (simp add: clear_quiz_def init_session_def graded_session_def)
  have g: "generate_quiz (\<lambda>req. Inr []) ''birds'' graded_session
       = (init_session, [Called (ContentRequest (quiz_prompt ''birds'') True) init_session])"
    by (simp add: generate_quiz_def get_gemini_response_def Let_def i)
  have f: "quiz_form default_radio False init_session = Inr (init_session, [])"
    by (simp add: quiz_form_def init_session_def)
  from c f show ?thesis unfolding g by simp
qed


section \<open>Clearing the quiz\<close>

lemma snapshots_of_append: "snapshots_of (a @ b) = snapshots_of a @ snapshots_of b"
  by (induction a rule: snapshots_of.induct) auto

lemma clean_json_response_no_call: "snapshots_of (snd (clean_json_response raw)) = []"
  by (auto simp: clean_json_response_def Let_def split: sum.splits json_error.splits)

lemma generate_quiz_snapshots:
  assumes "topic \<noteq> []"
  shows "snapshots_of (snd (generate_quiz svc topic st)) = [clear_quiz st]"
  using assms
  by (auto simp: generate_quiz_def get_gemini_response_def Let_def snapshots_of_append
      clean_json_response_no_call split: sum.splits)

lemma generate_quiz_state:
  assumes "topic \<noteq> []"
  shows "fst (generate_quiz svc topic st)
         = st\<lparr>quiz_questions :=
                (case svc (ContentRequest (quiz_prompt topic) True) of
                   Inl e \<Rightarrow> JArr []
                 | Inr raw \<Rightarrow> if raw = [] then JArr [] else fst (clean_json_response raw)),
              user_answers := Map.empty, quiz_score := None\<rparr>"
  using assms
  by (auto simp: generate_quiz_def get_gemini_response_def Let_def clear_quiz_def
      split: sum.splits)

text \<open>
  C7. A generate action with a topic that is not empty calls the service once, and at
  the moment of the call the questions, the answers and the score are already cleared.
  The session it leaves has no answers and no score, and for questions what the reply
  gives (the empty list when the call fails or the reply is empty, else the sanitizer's
  result): nothing of the quiz before it is left, and the conversation is as it was.
  A retake from a graded session (one with a score) clears the three as well and
  leaves the conversation alone, so that a generate after it does what it does on a
  fresh session with that conversation.
\<close>

theorem generate_and_retake_clear:
  "(topic \<noteq> [] \<longrightarrow>
      (\<exists>snap. snapshots_of (snd (generate_quiz svc topic st)) = [snap]
         \<and> quiz_questions snap = JArr [] \<and> user_answers snap = Map.empty
         \<and> quiz_score snap = None \<and> chat_history snap = chat_history st)
      \<and> user_answers (fst (generate_quiz svc topic st)) = Map.empty
      \<and> quiz_score (fst (generate_quiz svc topic st)) = None
      \<and> chat_history (fst (generate_quiz svc topic st)) = chat_history st
      \<and> quiz_questions (fst (generate_quiz svc topic st))
          = (case svc (ContentRequest (quiz_prompt topic) True) of
               Inl e \<Rightarrow> JArr []
             | Inr raw \<Rightarrow> if raw = [] then JArr [] else fst (clean_json_response raw)))
   \<and> (quiz_score st \<noteq> None \<longrightarrow>
        quiz_questions (retake st) = JArr [] \<and> user_answers (retake st) = Map.empty
        \<and> quiz_score (retake st) = None \<and> chat_history (retake st) = chat_history st
        \<and> quiz_cleared (retake st) \<and> quiz_cleared init_session
        \<and> generate_quiz svc topic (retake st)
            = generate_quiz svc topic (init_session\<lparr>chat_history := chat_history st\<rparr>))"
proof (intro conjI impI)
  assume t: "topic \<noteq> []"
  then have "snapshots_of (snd (generate_quiz svc topic st)) = [clear_quiz st]"
    by (rule generate_quiz_snapshots)
  then show "\<exists>snap. snapshots_of (snd (generate_quiz svc topic st)) = [snap]
         \<and> quiz_questions snap = JArr [] \<and> user_answers snap = Map.empty
         \<and> quiz_score snap = None \<and> chat_history snap = chat_history st"
    by (simp add: clear_quiz_def)
  show "user_answers (fst (generate_quiz svc topic st)) = Map.empty"
    "quiz_score (fst (generate_quiz svc topic st)) = None"
    "chat_history (fst (generate_quiz svc topic st)) = chat_history st"
    "quiz_questions (fst (generate_quiz svc topic st))
          = (case svc (ContentRequest (quiz_prompt topic) True) of
               Inl e \<Rightarrow> JArr []
             | Inr raw \<Rightarrow> if raw = [] then JArr [] else fst (clean_json_response raw))"
    by (simp_all add: generate_quiz_state [OF t])
next
  assume g: "quiz_score st \<noteq> None"
  then have r: "retake st = clear_quiz st" by (simp add: retake_def)
  show "quiz_questions (retake st) = JArr []" "user_answers (retake st) = Map.empty"
    "quiz_score (retake st) = None" "chat_history (retake st) = chat_history st"
    "quiz_cleared (retake st)" "quiz_cleared init_session"
    by (simp_all add: r clear_quiz_def quiz_cleared_def init_session_def)
  have "clear_quiz st = init_session\<lparr>chat_history := chat_history st\<rparr>"
    by (simp add: clear_quiz_def init_session_def)
  then show "generate_quiz svc topic (retake st)
            = generate_quiz svc topic (init_session\<lparr>chat_history := chat_history st\<rparr>)"
    by (simp add: r)
qed

theorem generate_and_retake_clear_witness:
  "''birds'' \<noteq> [] \<and> quiz_score graded_session \<noteq> None
   \<and> snapshots_of (snd (generate_quiz (\<lambda>req. Inl ''unavailable'') ''birds'' graded_session))
       = [init_session]
   \<and> fst (generate_quiz (\<lambda>req. Inl ''unavailable'') ''birds'' graded_session) = init_session
   \<and> retake graded_session = init_session"
proof -
  let ?svc = "\<lambda>req. Inl ''unavailable'' :: string + string"
  let ?st' = "fst (generate_quiz ?svc ''birds'' graded_session)"
  have a: "''birds'' \<noteq> []" by simp
  have b: "quiz_score graded_session \<noteq> None" by (simp add: graded_session_def)
  from a b generate_and_retake_clear [where topic = "''birds''" and st = graded_session
      and svc = ?svc]
  obtain snap where s: "snapshots_of (snd (generate_quiz ?svc ''birds'' graded_session)) = [snap]"
    and f: "quiz_questions snap = JArr []" "user_answers snap = Map.empty"
      "quiz_score snap = None" "chat_history snap = chat_history graded_session"
    and g: "user_answers ?st' = Map.empty" "quiz_score ?st' = None"
      "chat_history ?st' = chat_history graded_session"
      "quiz_questions ?st'
         = (case ?svc (ContentRequest (quiz_prompt ''birds'') True) of
              Inl e \<Rightarrow> JArr []
            | Inr raw \<Rightarrow> if raw = [] then JArr [] else fst (clean_json_response raw))"
    and r: "quiz_questions (retake graded_session) = JArr []"
      "user_answers (retake graded_session) = Map.empty"
      "quiz_score (retake graded_session) = None"
      "chat_history (retake graded_session) = chat_history graded_session"
    by blast
  have "snap = init_session"
    using f by (cases snap) (simp add: init_session_def graded_session_def)
  moreover have "?st' = init_session"
    using g by (cases ?st') (simp add: init_session_def graded_session_def)
  moreover have "retake graded_session = init_session"
    using r by (cases "retake graded_session") (simp add: init_session_def graded_session_def)
  ultimately show ?thesis using a b s by simp
qed


section \<open>Rendering the form\<close>

lemma py_in_dict: "is_dict q \<Longrightarrow> py_in k q = Inr True \<Longrightarrow> \<exists>v. py_getitem q k = Inr v"
  by (cases q) (auto split: option.splits simp: map_of_eq_None_iff image_iff)

lemma py_in_dict_total: "is_dict q \<Longrightarrow> \<exists>b. py_in k q = Inr b"
  by (cases q) auto

lemma py_getitem_dict: "py_getitem q k = Inr v \<Longrightarrow> is_dict q"
  by (cases q) auto

lemma malformed_dict: "is_dict q \<Longrightarrow> \<exists>b. malformed q = Inr b"
proof -
  assume d: "is_dict q"
  from py_in_dict_total [OF d] obtain b1 where b1: "py_in ''question'' q = Inr b1" by blast
  from py_in_dict_total [OF d] obtain b2 where b2: "py_in ''options'' q = Inr b2" by blast
  show ?thesis
  proof (cases "b1 \<and> b2")
    case True
    with b2 py_in_dict [OF d, of "''options''"] obtain v where "py_getitem q ''options'' = Inr v"
      by auto
    with True b1 b2 show ?thesis by (simp add: malformed_def)
  next
    case False
    with b1 b2 show ?thesis by (cases b1) (auto simp: malformed_def)
  qed
qed

lemma malformed_False:
  "malformed q = Inr False \<Longrightarrow>
     \<exists>qt os. py_getitem q ''question'' = Inr qt \<and> py_getitem q ''options'' = Inr (JArr os)"
proof -
  assume m: "malformed q = Inr False"
  then have a: "py_in ''question'' q = Inr True"
    by (auto simp: malformed_def split: sum.splits bool.splits)
  with m obtain opts where o: "py_getitem q ''options'' = Inr opts" "is_list opts"
    by (auto simp: malformed_def split: sum.splits bool.splits)
  then have "is_dict q" by (auto dest: py_getitem_dict)
  from py_in_dict [OF this a] obtain qt where "py_getitem q ''question'' = Inr qt" by blast
  moreover from o(2) obtain os where "opts = JArr os" by (cases opts) auto
  ultimately show ?thesis using o(1) by blast
qed

lemma render_items_dicts:
  "list_all is_dict qs \<Longrightarrow> \<exists>r. render_items rd i qs ua ev = Inr r"
proof (induction qs arbitrary: i ua ev)
  case Nil
  then show ?case by simp
next
  case (Cons q qs)
  then have d: "is_dict q" and rest: "list_all is_dict qs" by simp_all
  from malformed_dict [OF d] obtain b where b: "malformed q = Inr b" by blast
  show ?case
  proof (cases b)
    case True
    with b Cons.IH [OF rest] show ?thesis by simp
  next
    case False
    with b have "malformed q = Inr False" by simp
    from malformed_False [OF this] obtain qt os where
      "py_getitem q ''question'' = Inr qt" "py_getitem q ''options'' = Inr (JArr os)"
      by blast
    with b False Cons.IH [OF rest] show ?thesis by simp
  qed
qed

lemma render_items_answers:
  "render_items rd i qs ua ev = Inr r \<Longrightarrow> fst r k \<noteq> None \<Longrightarrow>
     ua k \<noteq> None \<or> (i \<le> k \<and> k < i + length qs \<and> is_dict (qs ! (k - i)))"
proof (induction qs arbitrary: i ua ev)
  case Nil
  then show ?case by auto
next
  case (Cons q qs)
  show ?case
  proof (cases "malformed q")
    case (Inl e)
    with Cons.prems show ?thesis by simp
  next
    case (Inr b)
    show ?thesis
    proof (cases b)
      case True
      with Inr Cons.prems
      have "render_items rd (i + 1) qs ua (ev @ [SkippedQuestion (i + 1) q]) = Inr r" by simp
      from Cons.IH [OF this Cons.prems(2)] show ?thesis
        by (auto simp: nth_Cons')
    next
      case False
      with Inr have "malformed q = Inr False" by simp
      from malformed_False [OF this] obtain qt os where
        g: "py_getitem q ''question'' = Inr qt" "py_getitem q ''options'' = Inr (JArr os)"
        by blast
      with Inr False Cons.prems
      have "render_items rd (i + 1) qs (ua(i \<mapsto> rd i os)) (ev @ [QuestionShown (i + 1) qt]) = Inr r"
        by simp
      from Cons.IH [OF this Cons.prems(2)] py_getitem_dict [OF g(1)] show ?thesis
        by (auto simp: nth_Cons' split: if_splits)
    qed
  qed
qed

lemma grade_total:
  "(\<And>j. j < length qs \<Longrightarrow> ua (i + j) \<noteq> None \<Longrightarrow> is_dict (qs ! j)) \<Longrightarrow>
     \<exists>n. grade ua i qs s = Inr n"
proof (induction qs arbitrary: i s)
  case Nil
  then show ?case by simp
next
  case (Cons q qs)
  have rest: "\<exists>n. grade ua (i + 1) qs s' = Inr n" for s'
  proof (rule Cons.IH)
    fix j assume "j < length qs" "ua (i + 1 + j) \<noteq> None"
    with Cons.prems [of "Suc j"] show "is_dict (qs ! j)" by simp
  qed
  show ?case
  proof (cases "ua i")
    case None
    with rest show ?thesis by simp
  next
    case (Some a)
    with Cons.prems [of 0] have d: "is_dict q" by simp
    from py_in_dict_total [OF d] obtain b where b: "py_in ''correct_answer'' q = Inr b" by blast
    show ?thesis
    proof (cases b)
      case True
      with b py_in_dict [OF d, of "''correct_answer''"] obtain c
        where "py_getitem q ''correct_answer'' = Inr c" by auto
      with Some b True rest show ?thesis by simp
    next
      case False
      with Some b rest show ?thesis by simp
    qed
  qed
qed

lemma render_then_grade:
  assumes "render_items rd 0 items Map.empty [] = Inr r"
  shows "dom (fst r) \<subseteq> {..<length items}" and "\<exists>n. grade (fst r) 0 items s = Inr n"
proof -
  have k: "k < length items \<and> is_dict (items ! k)" if "fst r k \<noteq> None" for k
    using render_items_answers [OF assms that] by simp
  then show "dom (fst r) \<subseteq> {..<length items}" by (auto simp: dom_def)
  show "\<exists>n. grade (fst r) 0 items s = Inr n"
    by (rule grade_total) (use k in simp)
qed

lemma quiz_form_dicts:
  assumes "quiz_questions st = JArr items" and "list_all is_dict items"
  shows "\<exists>r. quiz_form rd b st = Inr r"
proof (cases "items = []")
  case True
  with assms(1) show ?thesis by (simp add: quiz_form_def)
next
  case False
  from render_items_dicts [OF assms(2)] obtain r where
    r: "render_items rd 0 items Map.empty [] = Inr r" by blast
  from render_then_grade(2) [OF r] obtain n where "grade (fst r) 0 items 0 = Inr n" by blast
  with False assms(1) r show ?thesis
    by (simp add: quiz_form_def submit_answers_def Let_def)
qed

lemma mixed_reply_items:
  "fst (clean_json_response mixed_reply) = JArr [JInt 1, example_item]"
  by code_simp

lemma example_reply_items: "fst (clean_json_response example_reply) = JArr [example_item]"
  by code_simp

text \<open>
  C8. A reply whose array holds the number 1 before a well-formed quiz item is
  sanitized successfully, and rendering the form on it raises TypeError at the
  membership test of line 235: nothing of the batch is rendered, the well-formed item
  included. An item that is a dict without the required fields is skipped with a
  message and the item after it is shown.
\<close>

theorem quiz_form_raises_on_number_item:
  "quiz_questions (fst (generate_quiz (\<lambda>req. Inr mixed_reply) ''birds'' init_session))
     = JArr [JInt 1, example_item]
   \<and> quiz_form default_radio False
         (fst (generate_quiz (\<lambda>req. Inr mixed_reply) ''birds'' init_session))
       = Inl (TypeError, fst (generate_quiz (\<lambda>req. Inr mixed_reply) ''birds'' init_session))
   \<and> quiz_form default_radio False (init_session\<lparr>quiz_questions := JArr [JObj [], example_item]\<rparr>)
       = Inr (init_session\<lparr>quiz_questions := JArr [JObj [], example_item]\<rparr>,
              [SkippedQuestion 1 (JObj []), QuestionShown 2 (JStr ''Q'')])"
proof -
  have ne: "mixed_reply \<noteq> []" by (simp add: mixed_reply_def)
  have st: "fst (generate_quiz (\<lambda>req. Inr mixed_reply) ''birds'' init_session)
            = init_session\<lparr>quiz_questions := JArr [JInt 1, example_item]\<rparr>"
    using ne
    by (simp add: generate_quiz_def get_gemini_response_def Let_def mixed_reply_items
        clear_quiz_def init_session_def)
  show ?thesis
    unfolding st by (simp add: quiz_form_def malformed_def example_item_def)
qed

section \<open>Grading\<close>











section \<open>The invariant of the quiz state\<close>

lemma quiz_inv_fields:
  assumes "quiz_questions st' = quiz_questions st" and "user_answers st' = user_answers st"
    and "quiz_score st' = quiz_score st"
  shows "quiz_inv st' = quiz_inv st"
  using assms by (simp add: quiz_inv_def split: json.splits option.splits)

lemma quiz_inv_init: "quiz_inv init_session"
  by (simp add: quiz_inv_def init_session_def)

lemma quiz_inv_clear_quiz: "quiz_inv (clear_quiz st)"
  by (simp add: quiz_inv_def clear_quiz_def)

lemma quiz_inv_chat_submit:
  "quiz_inv st \<Longrightarrow> quiz_inv (fst (chat_submit svc user_prompt st))"
proof -
  have "quiz_inv (fst (chat_submit svc user_prompt st)) = quiz_inv st"
    by (rule quiz_inv_fields)
      (auto simp: chat_submit_def get_gemini_response_def Let_def split: sum.splits)
  then show "quiz_inv st \<Longrightarrow> quiz_inv (fst (chat_submit svc user_prompt st))" by simp
qed

lemma quiz_inv_clear_chat_history:
  "quiz_inv st \<Longrightarrow> quiz_inv (clear_chat_history st)"
proof -
  have "quiz_inv (clear_chat_history st) = quiz_inv st"
    by (rule quiz_inv_fields) (simp_all add: clear_chat_history_def)
  then show "quiz_inv st \<Longrightarrow> quiz_inv (clear_chat_history st)" by simp
qed

lemma quiz_inv_generate_quiz:
  "quiz_inv st \<Longrightarrow> quiz_inv (fst (generate_quiz svc topic st))"
proof -
  assume inv: "quiz_inv st"
  have new: "quiz_inv ((clear_quiz st)\<lparr>quiz_questions := fst (clean_json_response raw)\<rparr>)" for raw
    using clean_json_response_list_or_none [of raw]
    by (auto simp: quiz_inv_def clear_quiz_def)
  show ?thesis
    using inv new quiz_inv_clear_quiz [of st]
    by (auto simp: generate_quiz_def get_gemini_response_def Let_def split: sum.splits)
qed

lemma quiz_inv_retake: "quiz_inv st \<Longrightarrow> quiz_inv (retake st)"
  by (simp add: retake_def quiz_inv_clear_quiz)

lemma quiz_inv_questions:
  "quiz_inv st \<Longrightarrow> quiz_questions st = JNull \<or> (\<exists>items. quiz_questions st = JArr items)"
  by (auto simp: quiz_inv_def split: json.splits)

lemma quiz_form_cases:
  assumes "quiz_inv st"
  shows "quiz_form rd b st = Inr (st, [])
       \<or> (\<exists>e. quiz_form rd b st = Inl (e, st))
       \<or> (\<exists>items r n. quiz_questions st = JArr items \<and> items \<noteq> []
            \<and> render_items rd 0 items Map.empty [] = Inr r
            \<and> grade (fst r) 0 items 0 = Inr n
            \<and> quiz_form rd b st
                = Inr (if b then st\<lparr>user_answers := fst r, quiz_score := Some n\<rparr> else st, snd r))"
proof -
  from quiz_inv_questions [OF assms] show ?thesis
  proof
    assume "quiz_questions st = JNull"
    then show ?thesis by (simp add: quiz_form_def)
  next
    assume "\<exists>items. quiz_questions st = JArr items"
    then obtain items where q: "quiz_questions st = JArr items" by blast
    show ?thesis
    proof (cases "items = []")
      case True
      with q show ?thesis by (simp add: quiz_form_def)
    next
      case False
      show ?thesis
      proof (cases "render_items rd 0 items Map.empty []")
        case (Inl e)
        with q False show ?thesis by (simp add: quiz_form_def)
      next
        case (Inr r)
        from render_then_grade(2) [OF Inr] obtain n where n: "grade (fst r) 0 items 0 = Inr n"
          by blast
        with q False Inr have "quiz_form rd b st
                = Inr (if b then st\<lparr>user_answers := fst r, quiz_score := Some n\<rparr> else st, snd r)"
          by (simp add: quiz_form_def submit_answers_def Let_def)
        with q False Inr n show ?thesis by blast
      qed
    qed
  qed
qed

lemma quiz_inv_quiz_form:
  assumes "quiz_inv st" and "quiz_form rd b st = Inr (st', ev)"
  shows "quiz_inv st'"
  using quiz_form_cases [OF assms(1), of rd b]
proof (elim disjE exE conjE)
  assume "quiz_form rd b st = Inr (st, [])"
  with assms show ?thesis by simp
next
  fix e assume "quiz_form rd b st = Inl (e, st)"
  with assms show ?thesis by simp
next
  fix items r n
  assume q: "quiz_questions st = JArr items" "items \<noteq> []"
    and r: "render_items rd 0 items Map.empty [] = Inr r"
    and n: "grade (fst r) 0 items 0 = Inr n"
    and f: "quiz_form rd b st
              = Inr (if b then st\<lparr>user_answers := fst r, quiz_score := Some n\<rparr> else st, snd r)"
  show ?thesis
  proof (cases b)
    case False
    with f assms show ?thesis by simp
  next
    case True
    with f assms(2) have "st' = st\<lparr>user_answers := fst r, quiz_score := Some n\<rparr>" by simp
    with q n render_then_grade(1) [OF r] show ?thesis by (simp add: quiz_inv_def)
  qed
qed

lemma quiz_form_raise_unchanged:
  assumes "quiz_inv st" and "quiz_form rd b st = Inl (e, st')"
  shows "st' = st"
  using quiz_form_cases [OF assms(1), of rd b] assms(2) by auto

lemma reachable_quiz_inv: "reachable st \<Longrightarrow> quiz_inv st"
proof (induction rule: reachable.induct)
  case r_init
  show ?case by (rule quiz_inv_init)
next
  case (r_chat st svc user_prompt)
  then show ?case by (simp add: quiz_inv_chat_submit)
next
  case (r_clear st)
  then show ?case by (simp add: quiz_inv_clear_chat_history)
next
  case (r_generate st svc topic)
  then show ?case by (simp add: quiz_inv_generate_quiz)
next
  case (r_form st rd b st' ev)
  then show ?case by (blast intro: quiz_inv_quiz_form)
next
  case (r_form_raise st rd b e st')
  then show ?case using quiz_form_raise_unchanged by blast
next
  case (r_retake st)
  then show ?case by (simp add: quiz_inv_retake)
qed

text \<open>
  C9. In every reachable session state the invariant of the quiz state holds: a score
  is there only with a list of questions that is not empty, and submitting the stored
  answers against it gives the state back, score included; every key of the answers is
  an index of the questions. Generate, submit (a run of the form, which either
  completes or raises and then leaves the state as it was) and retake preserve the
  invariant.
\<close>

theorem quiz_invariant:
  assumes "reachable st"
  shows "quiz_inv st
       \<and> (quiz_score st \<noteq> None \<longrightarrow>
            (\<exists>items n. quiz_questions st = JArr items \<and> items \<noteq> [] \<and> quiz_score st = Some n
               \<and> submit_answers (user_answers st) st = Inr st))
       \<and> (\<forall>i \<in> dom (user_answers st).
            \<exists>items. quiz_questions st = JArr items \<and> i < length items)
       \<and> quiz_inv (fst (generate_quiz svc topic st))
       \<and> (\<forall>st' ev. quiz_form rd b st = Inr (st', ev) \<longrightarrow> quiz_inv st')
       \<and> (\<forall>e st'. quiz_form rd b st = Inl (e, st') \<longrightarrow> st' = st)
       \<and> quiz_inv (retake st)"
proof -
  from assms have inv: "quiz_inv st" by (rule reachable_quiz_inv)
  have score: "quiz_score st \<noteq> None \<longrightarrow>
            (\<exists>items n. quiz_questions st = JArr items \<and> items \<noteq> [] \<and> quiz_score st = Some n
               \<and> submit_answers (user_answers st) st = Inr st)"
    using inv
    by (auto simp: quiz_inv_def submit_answers_def Let_def split: json.splits option.splits)
  have keys: "\<forall>i \<in> dom (user_answers st).
            \<exists>items. quiz_questions st = JArr items \<and> i < length items"
    using inv by (auto simp: quiz_inv_def split: json.splits)
  from inv score keys quiz_inv_generate_quiz [OF inv] quiz_inv_quiz_form [OF inv]
    quiz_form_raise_unchanged [OF inv] quiz_inv_retake [OF inv]
  show ?thesis by blast
qed

lemma graded_session_steps:
  "fst (generate_quiz (\<lambda>req. Inr example_reply) ''birds'' init_session)
     = init_session\<lparr>quiz_questions := JArr [example_item]\<rparr>"
  "quiz_form default_radio True (init_session\<lparr>quiz_questions := JArr [example_item]\<rparr>)
     = Inr (graded_session, [QuestionShown 1 (JStr ''Q'')])"
proof -
  have "example_reply \<noteq> []" by (simp add: example_reply_def)
  then show "fst (generate_quiz (\<lambda>req. Inr example_reply) ''birds'' init_session)
     = init_session\<lparr>quiz_questions := JArr [example_item]\<rparr>"
    by (simp add: generate_quiz_def get_gemini_response_def Let_def example_reply_items
        clear_quiz_def init_session_def)
  show "quiz_form default_radio True (init_session\<lparr>quiz_questions := JArr [example_item]\<rparr>)
     = Inr (graded_session, [QuestionShown 1 (JStr ''Q'')])"
    by (simp add: quiz_form_def malformed_def example_item_def default_radio_def
        submit_answers_def Let_def graded_session_def)
qed

lemma reachable_graded_session: "reachable graded_session"
proof -
  have "reachable (fst (generate_quiz (\<lambda>req. Inr example_reply) ''birds'' init_session))"
    by (rule reachable.r_generate) (rule reachable.r_init)
  then have "reachable (init_session\<lparr>quiz_questions := JArr [example_item]\<rparr>)"
    by (simp only: graded_session_steps(1))
  then show ?thesis using graded_session_steps(2) by (rule reachable.r_form)
qed

theorem quiz_invariant_witness:
  "reachable graded_session \<and> quiz_inv graded_session \<and> quiz_score graded_session = Some 1
   \<and> submit_answers (user_answers graded_session) graded_session = Inr graded_session"
proof -
  from quiz_invariant [OF reachable_graded_session]
  have "quiz_inv graded_session"
    and "quiz_score graded_session \<noteq> None \<longrightarrow>
           submit_answers (user_answers graded_session) graded_session = Inr graded_session"
    by blast+
  moreover have "quiz_score graded_session = Some 1" by (simp add: graded_session_def)
  ultimately show ?thesis using reachable_graded_session by simp
qed

end
